theory Spec2Isabelle
  imports Main "HOL-Library.Char_ord" "HOL-Library.List_Lexorder" "HOL-Library.Multiset"
begin

section \<open>Notes API: the data model\<close>

text \<open>
  The backend is one module, \<^verbatim>\<open>main.py\<close>: five HTTP handlers over one SQLite table
  \<^verbatim>\<open>notes(id INTEGER PRIMARY KEY AUTOINCREMENT, title, content, created_at, updated_at)\<close>.
  The handlers are modelled as functions that take the store and return the response
  together with the store they leave behind. The clock reading
  \<^verbatim>\<open>datetime.now().isoformat()\<close> is a parameter \<open>now\<close> of the handlers that read it.

  Timestamps are what the code stores: strings. SQLite compares them as text, byte by
  byte, which is the lexicographic order on \<^typ>\<open>string\<close> used here.
\<close>

subsection \<open>Request bodies\<close>

text \<open>A parsed JSON value. An object keeps its members in the order of the text.\<close>

datatype json =
    JNull
  | JBool bool
  | JNumber int
  | JString string
  | JArray "json list"
  | JObject "(string \<times> json) list"

text \<open>
  The failures a request can end in. \<open>RequestValidationError\<close> is the 422 of the
  framework's body validation, \<open>HTTPException\<close> the one the handlers raise themselves;
  the last three are exceptions nothing catches, answered with 500: an integer outside
  SQLite's 64 bits bound to a query, an insert when the largest row id has been used, and
  \<^verbatim>\<open>dict(None)\<close> on a row that was not found.
\<close>

datatype error =
    RequestValidationError
  | HTTPException nat string
  | OverflowError
  | OperationalError
  | TypeError

fun status_code :: "error \<Rightarrow> nat" where
  "status_code RequestValidationError = 422"
| "status_code (HTTPException code detail) = code"
| "status_code OverflowError = 500"
| "status_code OperationalError = 500"
| "status_code TypeError = 500"

text \<open>The three models of the module, in the order it declares them.\<close>

record NoteCreate =
  title :: string
  content :: string

record NoteUpdate =
  title :: "string option"
  content :: "string option"

record Note =
  note_id :: int
  title :: string
  content :: string
  created_at :: string
  updated_at :: string

text \<open>
  The member of an object that \<^verbatim>\<open>json.loads\<close> keeps for a name: the last one.
\<close>

definition json_get :: "string \<Rightarrow> (string \<times> json) list \<Rightarrow> json option" where
  "json_get k members = map_of (rev members) k"

text \<open>A field declared \<^verbatim>\<open>str\<close>: required, and a JSON string.\<close>

fun required_str :: "json option \<Rightarrow> error + string" where
  "required_str (Some (JString s)) = Inr s"
| "required_str _ = Inl RequestValidationError"

text \<open>
  A field declared \<^verbatim>\<open>Optional[str] = None\<close>: absent and \<^verbatim>\<open>null\<close> both give
  \<open>None\<close>, a JSON string gives itself, anything else is refused.
\<close>

fun optional_str :: "json option \<Rightarrow> error + string option" where
  "optional_str None = Inr None"
| "optional_str (Some JNull) = Inr None"
| "optional_str (Some (JString s)) = Inr (Some s)"
| "optional_str _ = Inl RequestValidationError"

text \<open>The body of a request validated against a model; members the model does not
  declare are ignored.\<close>

fun validate_NoteCreate :: "json \<Rightarrow> error + NoteCreate" where
  "validate_NoteCreate (JObject members) =
     (case required_str (json_get ''title'' members) of
        Inl e \<Rightarrow> Inl e
      | Inr t \<Rightarrow>
          (case required_str (json_get ''content'' members) of
             Inl e \<Rightarrow> Inl e
           | Inr c \<Rightarrow> Inr \<lparr>NoteCreate.title = t, content = c\<rparr>))"
| "validate_NoteCreate _ = Inl RequestValidationError"

fun validate_NoteUpdate :: "json \<Rightarrow> error + NoteUpdate" where
  "validate_NoteUpdate (JObject members) =
     (case optional_str (json_get ''title'' members) of
        Inl e \<Rightarrow> Inl e
      | Inr t \<Rightarrow>
          (case optional_str (json_get ''content'' members) of
             Inl e \<Rightarrow> Inl e
           | Inr c \<Rightarrow> Inr \<lparr>NoteUpdate.title = t, content = c\<rparr>))"
| "validate_NoteUpdate _ = Inl RequestValidationError"

subsection \<open>The store\<close>

text \<open>
  The table: its rows in row-id order, and \<open>seq\<close>, the largest row id the table has ever
  held (what \<^verbatim>\<open>AUTOINCREMENT\<close> keeps in \<^verbatim>\<open>sqlite_sequence\<close>), 0 for a table
  that never held a row.
\<close>

record db =
  rows :: "Note list"
  seq :: int

definition init_db :: db where
  "init_db = \<lparr>rows = [], seq = 0\<rparr>"

definition max_rowid :: int where
  "max_rowid = 9223372036854775807"

text \<open>Whether a Python integer can be bound to a parameter of a query.\<close>

definition sqlite_int :: "int \<Rightarrow> bool" where
  "sqlite_int i \<longleftrightarrow> - 9223372036854775808 \<le> i \<and> i \<le> max_rowid"

text \<open>\<^verbatim>\<open>SELECT * FROM notes WHERE id = ?\<close> followed by \<^verbatim>\<open>fetchone()\<close>.\<close>

definition select_by_id :: "int \<Rightarrow> db \<Rightarrow> Note option" where
  "select_by_id i d = find (\<lambda>n. note_id n = i) (rows d)"

text \<open>
  \<^verbatim>\<open>SELECT * FROM notes ORDER BY updated_at DESC\<close>. SQL leaves the order of rows with
  equal keys open; here they stay in row-id order.
\<close>

definition order_by_updated_at_desc :: "Note list \<Rightarrow> Note list" where
  "order_by_updated_at_desc ns = rev (sort_key updated_at (rev ns))"

section \<open>The handlers\<close>

text \<open>
  Each handler follows its source: the queries in the order the code issues them, a
  \<^verbatim>\<open>raise\<close> as an \<open>Inl\<close>, the value returned as an \<open>Inr\<close>. A path parameter
  \<^verbatim>\<open>note_id: int\<close> is a Python integer, unbounded; binding one that does not fit 64
  bits to a query raises before the query runs.
\<close>

definition get_notes :: "db \<Rightarrow> Note list" where
  "get_notes d = order_by_updated_at_desc (rows d)"

definition get_note :: "int \<Rightarrow> db \<Rightarrow> error + Note" where
  "get_note i d =
     (if \<not> sqlite_int i then Inl OverflowError
      else case select_by_id i d of
             None \<Rightarrow> Inl (HTTPException 404 ''Note not found'')
           | Some note \<Rightarrow> Inr note)"

text \<open>
  \<open>create_note\<close> inserts with the next row id, which is one more than the largest the
  table has ever held, and reads the row back by that id. When the largest row id there
  is has been used, SQLite refuses the insert and the store stays as it was.
\<close>

definition create_note :: "string \<Rightarrow> NoteCreate \<Rightarrow> db \<Rightarrow> (error + Note) \<times> db" where
  "create_note now note d =
     (if seq d = max_rowid then (Inl OperationalError, d)
      else
        let i = seq d + 1;
            d' = d\<lparr>rows := rows d @
                   [\<lparr>note_id = i, title = NoteCreate.title note,
                     content = NoteCreate.content note,
                     created_at = now, updated_at = now\<rparr>],
                   seq := i\<rparr>
        in case select_by_id i d' of
             None \<Rightarrow> (Inl TypeError, d')
           | Some created_note \<Rightarrow> (Inr created_note, d'))"

definition update_note :: "string \<Rightarrow> int \<Rightarrow> NoteUpdate \<Rightarrow> db \<Rightarrow> (error + Note) \<times> db" where
  "update_note now i note_update d =
     (if \<not> sqlite_int i then (Inl OverflowError, d)
      else case select_by_id i d of
             None \<Rightarrow> (Inl (HTTPException 404 ''Note not found''), d)
           | Some existing_note \<Rightarrow>
               let t = (case NoteUpdate.title note_update of
                          Some s \<Rightarrow> s | None \<Rightarrow> title existing_note);
                   c = (case NoteUpdate.content note_update of
                          Some s \<Rightarrow> s | None \<Rightarrow> content existing_note);
                   d' = d\<lparr>rows :=
                          map (\<lambda>n. if note_id n = i
                                    then (n\<lparr>title := t, content := c, updated_at := now\<rparr>)
                                    else n) (rows d)\<rparr>
               in (case select_by_id i d' of
                     None \<Rightarrow> (Inl TypeError, d')
                   | Some updated_note \<Rightarrow> (Inr updated_note, d')))"

definition delete_note :: "int \<Rightarrow> db \<Rightarrow> (error + string) \<times> db" where
  "delete_note i d =
     (if \<not> sqlite_int i then (Inl OverflowError, d)
      else case select_by_id i d of
             None \<Rightarrow> (Inl (HTTPException 404 ''Note not found''), d)
           | Some note \<Rightarrow>
               (Inr ''Note deleted successfully'',
                d\<lparr>rows := filter (\<lambda>n. note_id n \<noteq> i) (rows d)\<rparr>))"

subsection \<open>Requests\<close>

text \<open>
  A request as the framework routes it: the body is validated against the handler's
  model first, and the handler runs only on a body that passed.
\<close>

datatype request =
    GET_notes
  | GET_note int
  | POST_notes json
  | PUT_note int json
  | DELETE_note int

datatype response =
    Notes "Note list"
  | OneNote Note
  | Message string

fun handle :: "string \<Rightarrow> request \<Rightarrow> db \<Rightarrow> (error + response) \<times> db" where
  "handle now GET_notes d = (Inr (Notes (get_notes d)), d)"
| "handle now (GET_note i) d = (map_sum id OneNote (get_note i d), d)"
| "handle now (POST_notes body) d =
     (case validate_NoteCreate body of
        Inl e \<Rightarrow> (Inl e, d)
      | Inr note \<Rightarrow> (case create_note now note d of (r, d') \<Rightarrow> (map_sum id OneNote r, d')))"
| "handle now (PUT_note i body) d =
     (case validate_NoteUpdate body of
        Inl e \<Rightarrow> (Inl e, d)
      | Inr note_update \<Rightarrow>
          (case update_note now i note_update d of (r, d') \<Rightarrow> (map_sum id OneNote r, d')))"
| "handle now (DELETE_note i) d =
     (case delete_note i d of (r, d') \<Rightarrow> (map_sum id Message r, d'))"

text \<open>
  A history of the server: the requests it served, each with the reading of the clock
  when it was served. \<open>run\<close> gives the store after the history, \<open>responses\<close> what was
  answered along the way.
\<close>

fun run :: "(string \<times> request) list \<Rightarrow> db \<Rightarrow> db" where
  "run [] d = d"
| "run ((now, r) # rest) d = run rest (snd (handle now r d))"

fun responses :: "(string \<times> request) list \<Rightarrow> db \<Rightarrow> (request \<times> (error + response)) list" where
  "responses [] d = []"
| "responses ((now, r) # rest) d =
     (r, fst (handle now r d)) # responses rest (snd (handle now r d))"

subsection \<open>Observations on a store and on a history\<close>

text \<open>The ids in the table, in row order.\<close>

definition ids :: "db \<Rightarrow> int list" where
  "ids d = map note_id (rows d)"

text \<open>
  The shape every store has that the handlers produce from the empty one: the ids are
  distinct (the primary key), positive and at most \<open>seq\<close>, and \<open>seq\<close> is a row id.
\<close>

definition db_ok :: "db \<Rightarrow> bool" where
  "db_ok d \<longleftrightarrow> distinct (ids d) \<and> list_all (\<lambda>i. 0 < i \<and> i \<le> seq d) (ids d) \<and>
     0 \<le> seq d \<and> seq d \<le> max_rowid"

text \<open>
  The ids that creations have given out in a history, oldest first: the id of the note in
  each successful answer to a POST.
\<close>

fun created_ids :: "(request \<times> (error + response)) list \<Rightarrow> int list" where
  "created_ids [] = []"
| "created_ids ((POST_notes body, Inr (OneNote n)) # rest) = note_id n # created_ids rest"
| "created_ids (_ # rest) = created_ids rest"

section \<open>Properties of the store\<close>

lemma find_append_last:
  "\<forall>x \<in> set xs. \<not> P x \<Longrightarrow> P y \<Longrightarrow> find P (xs @ [y]) = Some y"
  by (induction xs) auto

lemma find_map_update:
  assumes "\<And>m. note_id (g m) = note_id m"
  shows "find (\<lambda>n. note_id n = i) (map (\<lambda>m. if note_id m = i then g m else m) xs) =
         map_option g (find (\<lambda>n. note_id n = i) xs)"
  using assms by (induction xs) auto

lemma map_note_id_update:
  assumes "\<And>m. note_id (g m) = note_id m"
  shows "map note_id (map (\<lambda>m. if note_id m = i then g m else m) xs) = map note_id xs"
  using assms by (induction xs) auto

lemma select_by_id_Some: "select_by_id i d = Some n \<Longrightarrow> n \<in> set (rows d) \<and> note_id n = i"
  by (auto simp: select_by_id_def find_Some_iff)

lemma select_by_id_None: "select_by_id i d = None \<longleftrightarrow> i \<notin> set (ids d)"
  by (auto simp: select_by_id_def find_None_iff ids_def)

lemma db_ok_init: "db_ok init_db"
  by (simp add: db_ok_def init_db_def ids_def max_rowid_def)

lemma create_note_result:
  assumes "db_ok d" "seq d \<noteq> max_rowid"
  shows "create_note now note d =
         (Inr \<lparr>note_id = seq d + 1, title = NoteCreate.title note,
               content = NoteCreate.content note, created_at = now, updated_at = now\<rparr>,
          d\<lparr>rows := rows d @
               [\<lparr>note_id = seq d + 1, title = NoteCreate.title note,
                 content = NoteCreate.content note, created_at = now, updated_at = now\<rparr>],
             seq := seq d + 1\<rparr>)"
proof -
  have "\<forall>x \<in> set (rows d). \<not> note_id x = seq d + 1"
    using assms(1) by (auto simp: db_ok_def ids_def list_all_iff)
  then show ?thesis
    using assms(2) by (simp add: create_note_def select_by_id_def Let_def find_append_last)
qed

lemma create_note_full: "seq d = max_rowid \<Longrightarrow> create_note now note d = (Inl OperationalError, d)"
  by (simp add: create_note_def)

lemma update_note_result:
  assumes "select_by_id i d = Some n" "sqlite_int i"
  shows "update_note now i u d =
         (Inr (n\<lparr>title := (case NoteUpdate.title u of Some s \<Rightarrow> s | None \<Rightarrow> title n),
                 content := (case NoteUpdate.content u of Some s \<Rightarrow> s | None \<Rightarrow> content n),
                 updated_at := now\<rparr>),
          d\<lparr>rows := map (\<lambda>m. if note_id m = i
                 then (m\<lparr>title := (case NoteUpdate.title u of Some s \<Rightarrow> s | None \<Rightarrow> title n),
                 content := (case NoteUpdate.content u of Some s \<Rightarrow> s | None \<Rightarrow> content n),
                 updated_at := now\<rparr>) else m) (rows d)\<rparr>)"
proof -
  let ?g = "\<lambda>m::Note. m\<lparr>title := (case NoteUpdate.title u of Some s \<Rightarrow> s | None \<Rightarrow> title n),
                 content := (case NoteUpdate.content u of Some s \<Rightarrow> s | None \<Rightarrow> content n),
                 updated_at := now\<rparr>"
  have "find (\<lambda>n. note_id n = i) (map (\<lambda>m. if note_id m = i then ?g m else m) (rows d)) =
        map_option ?g (find (\<lambda>n. note_id n = i) (rows d))"
    by (rule find_map_update) simp
  then show ?thesis
    using assms by (simp add: update_note_def select_by_id_def Let_def)
qed

lemma update_note_absent:
  "select_by_id i d = None \<Longrightarrow> sqlite_int i \<Longrightarrow>
   update_note now i u d = (Inl (HTTPException 404 ''Note not found''), d)"
  by (simp add: update_note_def)

lemma update_note_ids: "ids (snd (update_note now i u d)) = ids d \<and> seq (snd (update_note now i u d)) = seq d"
proof (cases "sqlite_int i")
  case False then show ?thesis by (simp add: update_note_def)
next
  case True
  show ?thesis
  proof (cases "select_by_id i d")
    case None with True show ?thesis by (simp add: update_note_absent)
  next
    case (Some n)
    show ?thesis
      unfolding update_note_result [OF Some True]
      by (simp add: ids_def map_note_id_update)
  qed
qed

lemma delete_note_ids:
  "ids (snd (delete_note i d)) = (if sqlite_int i then filter (\<lambda>j. j \<noteq> i) (ids d) else ids d)
   \<and> seq (snd (delete_note i d)) = seq d"
  by (auto simp: delete_note_def ids_def filter_map comp_def select_by_id_def find_None_iff
      split: option.splits intro!: filter_True [symmetric] )


lemma create_note_ids:
  assumes "db_ok d"
  shows "(seq d = max_rowid \<and> snd (create_note now note d) = d) \<or>
         (seq d < max_rowid \<and> ids (snd (create_note now note d)) = ids d @ [seq d + 1] \<and>
          seq (snd (create_note now note d)) = seq d + 1)"
proof (cases "seq d = max_rowid")
  case True then show ?thesis by (simp add: create_note_full)
next
  case False
  moreover from assms have "seq d \<le> max_rowid" by (simp add: db_ok_def)
  ultimately show ?thesis
    by (simp add: create_note_result [OF assms False] ids_def)
qed

text \<open>What a request can do to the ids of the table and to \<open>seq\<close>.\<close>

lemma handle_ids:
  assumes "db_ok d"
  shows "(ids (snd (handle now r d)) = ids d \<and> seq (snd (handle now r d)) = seq d) \<or>
         (seq d < max_rowid \<and> ids (snd (handle now r d)) = ids d @ [seq d + 1] \<and>
            seq (snd (handle now r d)) = seq d + 1) \<or>
         (\<exists>i. ids (snd (handle now r d)) = filter (\<lambda>j. j \<noteq> i) (ids d) \<and>
            seq (snd (handle now r d)) = seq d)"
proof (cases r)
  case GET_notes then show ?thesis by simp
next
  case (GET_note i) then show ?thesis by simp
next
  case (POST_notes body)
  show ?thesis
  proof (cases "validate_NoteCreate body")
    case (Inl e) with POST_notes show ?thesis by simp
  next
    case (Inr nc)
    then have "snd (handle now r d) = snd (create_note now nc d)"
      using POST_notes by (simp add: case_prod_beta)
    then show ?thesis using create_note_ids [OF assms, of now nc] by auto
  qed
next
  case (PUT_note i body)
  show ?thesis
  proof (cases "validate_NoteUpdate body")
    case (Inl e) with PUT_note show ?thesis by simp
  next
    case (Inr u)
    then have "snd (handle now r d) = snd (update_note now i u d)"
      using PUT_note by (simp add: case_prod_beta)
    then show ?thesis using update_note_ids [of now i u d] by simp
  qed
next
  case (DELETE_note i)
  then have "snd (handle now r d) = snd (delete_note i d)"
    by (simp add: case_prod_beta)
  then show ?thesis using delete_note_ids [of i d] by (auto split: if_splits)
qed

lemma handle_db_ok:
  assumes "db_ok d"
  shows "db_ok (snd (handle now r d))"
proof -
  from assms have a: "distinct (ids d)" "\<forall>i \<in> set (ids d). 0 < i \<and> i \<le> seq d"
    "0 \<le> seq d" "seq d \<le> max_rowid"
    by (simp_all add: db_ok_def list_all_iff)
  from handle_ids [OF assms, of now r] show ?thesis
  proof (elim disjE exE conjE)
    assume "ids (snd (handle now r d)) = ids d" "seq (snd (handle now r d)) = seq d"
    with a show ?thesis by (simp add: db_ok_def list_all_iff)
  next
    assume "seq d < max_rowid" "ids (snd (handle now r d)) = ids d @ [seq d + 1]"
      "seq (snd (handle now r d)) = seq d + 1"
    with a show ?thesis by (fastforce simp: db_ok_def list_all_iff)
  next
    fix i
    assume "ids (snd (handle now r d)) = filter (\<lambda>j. j \<noteq> i) (ids d)"
      "seq (snd (handle now r d)) = seq d"
    with a show ?thesis by (simp add: db_ok_def list_all_iff)
  qed
qed

lemma run_db_ok: "db_ok d \<Longrightarrow> db_ok (run tr d)"
  by (induction tr arbitrary: d) (auto simp: handle_db_ok)

lemma run_init_db_ok: "db_ok (run tr init_db)"
  by (rule run_db_ok [OF db_ok_init])

text \<open>An id at or below \<open>seq\<close> that is not in the table never enters it again.\<close>

lemma handle_absent:
  assumes "db_ok d" "i \<le> seq d" "i \<notin> set (ids d)"
  shows "i \<le> seq (snd (handle now r d)) \<and> i \<notin> set (ids (snd (handle now r d)))"
  using handle_ids [OF assms(1), of now r] assms(2,3) by auto

lemma run_absent:
  "db_ok d \<Longrightarrow> i \<le> seq d \<Longrightarrow> i \<notin> set (ids d) \<Longrightarrow> i \<notin> set (ids (run tr d))"
proof (induction tr arbitrary: d)
  case Nil then show ?case by simp
next
  case (Cons p tr)
  obtain now r where p: "p = (now, r)" by (cases p)
  have "db_ok (snd (handle now r d))" by (rule handle_db_ok [OF Cons.prems(1)])
  moreover have "i \<le> seq (snd (handle now r d)) \<and> i \<notin> set (ids (snd (handle now r d)))"
    by (rule handle_absent [OF Cons.prems])
  ultimately show ?case using Cons.IH p by simp
qed

subsection \<open>Validation and creation\<close>

lemma handle_POST_valid:
  assumes "db_ok d" "seq d \<noteq> max_rowid"
    "json_get ''title'' ms = Some (JString t)" "json_get ''content'' ms = Some (JString c)"
  shows "handle now (POST_notes (JObject ms)) d =
         (Inr (OneNote \<lparr>note_id = seq d + 1, title = t, content = c,
                         created_at = now, updated_at = now\<rparr>),
          d\<lparr>rows := rows d @ [\<lparr>note_id = seq d + 1, title = t, content = c,
                                 created_at = now, updated_at = now\<rparr>],
             seq := seq d + 1\<rparr>)"
  using assms(3,4) by (simp add: create_note_result [OF assms(1,2)])

lemma required_str_Inr: "required_str j = Inr s \<longleftrightarrow> j = Some (JString s)"
  by (cases j rule: required_str.cases) auto

lemma required_str_Inl: "required_str j = Inl e \<longleftrightarrow> e = RequestValidationError \<and> (\<forall>s. j \<noteq> Some (JString s))"
  by (cases j rule: required_str.cases) auto

lemma validate_NoteCreate_Inr:
  "validate_NoteCreate body = Inr nc \<longleftrightarrow>
   (\<exists>ms. body = JObject ms \<and> json_get ''title'' ms = Some (JString (NoteCreate.title nc)) \<and>
         json_get ''content'' ms = Some (JString (NoteCreate.content nc)))"
  by (cases body) (auto simp: required_str_Inr split: sum.splits)

lemma validate_NoteCreate_Inl:
  "validate_NoteCreate body = Inl e \<Longrightarrow> e = RequestValidationError"
  by (cases body) (auto simp: required_str_Inl split: sum.splits)

subsection \<open>Updates\<close>

lemma optional_str_Inr:
  "optional_str j = Inr v \<longleftrightarrow>
   (v = None \<and> (j = None \<or> j = Some JNull)) \<or> (\<exists>s. v = Some s \<and> j = Some (JString s))"
  by (cases j rule: optional_str.cases) auto

lemma handle_PUT_valid:
  assumes "validate_NoteUpdate body = Inr u" "select_by_id i d = Some n" "sqlite_int i"
  shows "handle now (PUT_note i body) d =
         (Inr (OneNote (n\<lparr>title := (case NoteUpdate.title u of Some s \<Rightarrow> s | None \<Rightarrow> title n),
                 content := (case NoteUpdate.content u of Some s \<Rightarrow> s | None \<Rightarrow> content n),
                 updated_at := now\<rparr>)),
          d\<lparr>rows := map (\<lambda>m. if note_id m = i
                 then (m\<lparr>title := (case NoteUpdate.title u of Some s \<Rightarrow> s | None \<Rightarrow> title n),
                 content := (case NoteUpdate.content u of Some s \<Rightarrow> s | None \<Rightarrow> content n),
                 updated_at := now\<rparr>) else m) (rows d)\<rparr>)"
  using assms(1) by (simp add: update_note_result [OF assms(2,3)])

lemma select_by_id_after_update:
  assumes "select_by_id i d = Some n" "\<And>m. note_id (g m) = note_id m"
  shows "select_by_id i (d\<lparr>rows := map (\<lambda>m. if note_id m = i then g m else m) (rows d)\<rparr>) = Some (g n)"
  using assms(1) find_map_update [of g i "rows d", OF assms(2)]
  by (simp add: select_by_id_def)

lemma get_note_after_PUT:
  assumes "validate_NoteUpdate body = Inr u" "select_by_id i d = Some n" "sqlite_int i"
  shows "get_note i (snd (handle now (PUT_note i body) d)) =
         Inr (n\<lparr>title := (case NoteUpdate.title u of Some s \<Rightarrow> s | None \<Rightarrow> title n),
                 content := (case NoteUpdate.content u of Some s \<Rightarrow> s | None \<Rightarrow> content n),
                 updated_at := now\<rparr>)"
  by (subst handle_PUT_valid [OF assms])
     (simp add: get_note_def assms(3) select_by_id_after_update [OF assms(2)])


lemma delete_note_Inr:
  assumes "delete_note i d = (Inr m, d')"
  shows "sqlite_int i \<and> i \<in> set (ids d) \<and> d' = d\<lparr>rows := filter (\<lambda>n. note_id n \<noteq> i) (rows d)\<rparr>"
proof -
  from assms have r: "sqlite_int i"
    by (auto simp: delete_note_def split: if_splits)
  with assms obtain n where n: "select_by_id i d = Some n"
    by (cases "select_by_id i d") (auto simp: delete_note_def)
  from select_by_id_Some [OF n] have "i \<in> set (ids d)" by (auto simp: ids_def)
  with assms r n show ?thesis by (simp add: delete_note_def)
qed

lemma get_note_absent:
  "sqlite_int i \<Longrightarrow> i \<notin> set (ids d) \<Longrightarrow> get_note i d = Inl (HTTPException 404 ''Note not found'')"
  using select_by_id_None [of i d] by (simp add: get_note_def)

lemma json_get_filter:
  "json_get k (filter (\<lambda>m. fst m \<noteq> k') ms) = (if k = k' then None else json_get k ms)"
proof (induction ms)
  case Nil then show ?case by (simp add: json_get_def)
next
  case (Cons m ms)
  then show ?case by (cases m) (auto simp: json_get_def map_add_def split: option.splits)
qed


subsection \<open>Timestamps\<close>

lemma create_note_rows:
  "snd (create_note now nc d) = d \<or>
   rows (snd (create_note now nc d)) = rows d @
     [\<lparr>note_id = seq d + 1, title = NoteCreate.title nc, content = NoteCreate.content nc,
       created_at = now, updated_at = now\<rparr>]"
  by (simp add: create_note_def Let_def split: option.splits)

lemma update_note_rows:
  "snd (update_note now i u d) = d \<or>
   (\<exists>t c. rows (snd (update_note now i u d)) =
      map (\<lambda>m. if note_id m = i then (m\<lparr>title := t, content := c, updated_at := now\<rparr>) else m) (rows d))"
  by (auto simp: update_note_def Let_def split: option.splits)

lemma delete_note_rows: "set (rows (snd (delete_note i d))) \<subseteq> set (rows d)"
  by (auto simp: delete_note_def split: option.splits)

lemma handle_times:
  assumes "\<forall>n \<in> set (rows d). created_at n \<le> updated_at n \<and> created_at n \<le> now"
  shows "\<forall>n \<in> set (rows (snd (handle now r d))). created_at n \<le> updated_at n \<and> created_at n \<le> now"
proof (cases r)
  case GET_notes with assms show ?thesis by simp
next
  case (GET_note i) with assms show ?thesis by simp
next
  case (POST_notes body)
  show ?thesis
  proof (cases "validate_NoteCreate body")
    case (Inl e) with POST_notes assms show ?thesis by simp
  next
    case (Inr nc)
    then have "snd (handle now r d) = snd (create_note now nc d)"
      using POST_notes by (simp add: case_prod_beta)
    with create_note_rows [of now nc d] assms show ?thesis by auto
  qed
next
  case (PUT_note i body)
  show ?thesis
  proof (cases "validate_NoteUpdate body")
    case (Inl e) with PUT_note assms show ?thesis by simp
  next
    case (Inr u)
    then have "snd (handle now r d) = snd (update_note now i u d)"
      using PUT_note by (simp add: case_prod_beta)
    with update_note_rows [of now i u d] assms show ?thesis by auto
  qed
next
  case (DELETE_note i)
  then have "snd (handle now r d) = snd (delete_note i d)"
    by (simp add: case_prod_beta)
  with delete_note_rows [of i d] assms show ?thesis by auto
qed

lemma run_times:
  assumes "sorted (map fst tr)"
    and "\<forall>n \<in> set (rows d). created_at n \<le> updated_at n"
    and "\<forall>n \<in> set (rows d). \<forall>t \<in> set (map fst tr). created_at n \<le> t"
  shows "\<forall>n \<in> set (rows (run tr d)). created_at n \<le> updated_at n"
  using assms
proof (induction tr arbitrary: d)
  case Nil then show ?case by simp
next
  case (Cons p tr)
  obtain now r where p: "p = (now, r)" by (cases p)
  let ?d = "snd (handle now r d)"
  from Cons.prems p have s: "sorted (map fst tr)" and le: "\<forall>t \<in> set (map fst tr). now \<le> t"
    by simp_all
  from Cons.prems p have "\<forall>n \<in> set (rows d). created_at n \<le> updated_at n \<and> created_at n \<le> now"
    by simp
  from handle_times [OF this, of r]
  have h: "\<forall>n \<in> set (rows ?d). created_at n \<le> updated_at n \<and> created_at n \<le> now" .
  then have 1: "\<forall>n \<in> set (rows ?d). created_at n \<le> updated_at n" by blast
  from h le have 2: "\<forall>n \<in> set (rows ?d). \<forall>t \<in> set (map fst tr). created_at n \<le> t"
    by (meson order_trans)
  from Cons.IH [OF s 1 2] p show ?case by simp
qed

subsection \<open>Ids given out\<close>

lemma handle_effect:
  assumes "db_ok d"
  shows "(created_ids ((r, fst (handle now r d)) # rest) = created_ids rest \<and>
          seq (snd (handle now r d)) = seq d \<and>
          set (ids (snd (handle now r d))) \<subseteq> set (ids d)) \<or>
         (created_ids ((r, fst (handle now r d)) # rest) = (seq d + 1) # created_ids rest \<and>
          seq (snd (handle now r d)) = seq d + 1 \<and>
          ids (snd (handle now r d)) = ids d @ [seq d + 1])"
proof (cases r)
  case GET_notes then show ?thesis by simp
next
  case (GET_note i) then show ?thesis by simp
next
  case (POST_notes body)
  show ?thesis
  proof (cases "validate_NoteCreate body")
    case (Inl e) with POST_notes show ?thesis by simp
  next
    case (Inr nc)
    show ?thesis
    proof (cases "seq d = max_rowid")
      case True
      with Inr POST_notes show ?thesis by (simp add: create_note_full)
    next
      case False
      with Inr POST_notes show ?thesis
        by (simp add: create_note_result [OF assms False] ids_def)
    qed
  qed
next
  case (PUT_note i body)
  show ?thesis
  proof (cases "validate_NoteUpdate body")
    case (Inl e) with PUT_note show ?thesis by simp
  next
    case (Inr u)
    then have "handle now r d = (map_sum id OneNote (fst (update_note now i u d)), snd (update_note now i u d))"
      using PUT_note by (simp add: case_prod_beta)
    then show ?thesis using update_note_ids [of now i u d] PUT_note by simp
  qed
next
  case (DELETE_note i)
  then have "handle now r d = (map_sum id Message (fst (delete_note i d)), snd (delete_note i d))"
    by (simp add: case_prod_beta)
  then show ?thesis using delete_note_ids [of i d] DELETE_note by (auto split: if_splits)
qed

lemma created_ids_increasing:
  assumes "db_ok d"
  shows "sorted_wrt (<) (created_ids (responses tr d)) \<and>
         (\<forall>i \<in> set (created_ids (responses tr d)). seq d < i) \<and>
         set (ids (run tr d)) \<subseteq> set (ids d) \<union> set (created_ids (responses tr d))"
  using assms
proof (induction tr arbitrary: d)
  case Nil then show ?case by simp
next
  case (Cons p tr)
  obtain now r where p: "p = (now, r)" by (cases p)
  let ?d = "snd (handle now r d)"
  have ok: "db_ok ?d" by (rule handle_db_ok [OF Cons.prems])
  note ih = Cons.IH [OF ok]
  from handle_effect [OF Cons.prems, of r now "responses tr ?d"]
  show ?case
  proof (elim disjE conjE)
    assume "created_ids ((r, fst (handle now r d)) # responses tr ?d) = created_ids (responses tr ?d)"
      "seq ?d = seq d" "set (ids ?d) \<subseteq> set (ids d)"
    with ih p show ?thesis by auto
  next
    assume "created_ids ((r, fst (handle now r d)) # responses tr ?d) =
              (seq d + 1) # created_ids (responses tr ?d)"
      "seq ?d = seq d + 1" "ids ?d = ids d @ [seq d + 1]"
    with ih p show ?thesis by auto
  qed
qed

subsection \<open>Listing\<close>

lemma order_by_updated_at_desc_mset: "mset (order_by_updated_at_desc ns) = mset ns"
  by (simp add: order_by_updated_at_desc_def)

lemma order_by_updated_at_desc_sorted:
  "sorted_wrt (\<lambda>a b. updated_at b \<le> updated_at a) (order_by_updated_at_desc ns)"
proof -
  have "sorted (map updated_at (sort_key updated_at (rev ns)))" by simp
  then have "sorted_wrt (\<lambda>a b. updated_at a \<le> updated_at b) (sort_key updated_at (rev ns))"
    by (simp add: sorted_wrt_map)
  then show ?thesis
    by (simp add: order_by_updated_at_desc_def sorted_wrt_rev)
qed

lemma three_creates:
  "run [(t1, POST_notes (JObject [(''title'', JString ta), (''content'', JString ca)])),
        (t2, POST_notes (JObject [(''title'', JString tb), (''content'', JString cb)])),
        (t3, POST_notes (JObject [(''title'', JString tc), (''content'', JString cc)]))] init_db =
   \<lparr>rows = [\<lparr>note_id = 1, title = ta, content = ca, created_at = t1, updated_at = t1\<rparr>,
            \<lparr>note_id = 2, title = tb, content = cb, created_at = t2, updated_at = t2\<rparr>,
            \<lparr>note_id = 3, title = tc, content = cc, created_at = t3, updated_at = t3\<rparr>],
     seq = 3\<rparr>"
  by (simp add: init_db_def create_note_def Let_def select_by_id_def json_get_def max_rowid_def)

lemma run_append: "run (tr @ tr') d = run tr' (run tr d)"
  by (induction tr arbitrary: d) auto


section \<open>The claims\<close>

subsection \<open>C1: what a POST must carry for a note to be created\<close>

text \<open>
  C1 as stated: a note is created only if title and content are both non-empty text, and a
  request whose title or content is empty is rejected with nothing persisted. The models
  declare \<^verbatim>\<open>title: str\<close> and \<^verbatim>\<open>content: str\<close> with no length constraint, and the
  column constraint is \<^verbatim>\<open>NOT NULL\<close>: the empty string passes both. A request with
  empty title and empty content on the empty store is answered with the created note,
  and the note is in the table.
\<close>

theorem post_notes_empty_strings_counterexample:
  "handle ''2024-01-01T00:00:00'' (POST_notes (JObject [(''title'', JString ''''), (''content'', JString '''')])) init_db =
     (Inr (OneNote \<lparr>note_id = 1, title = '''', content = '''',
                    created_at = ''2024-01-01T00:00:00'', updated_at = ''2024-01-01T00:00:00''\<rparr>),
      \<lparr>rows = [\<lparr>note_id = 1, title = '''', content = '''',
                 created_at = ''2024-01-01T00:00:00'', updated_at = ''2024-01-01T00:00:00''\<rparr>],
       seq = 1\<rparr>)"
  by code_simp

text \<open>
  C1 as amended: on a store that the handlers have produced and that still has a row id
  to give, a POST whose body is an object creates a note exactly when title and content
  are both JSON strings, the empty string included: then the note carries them, gets
  the next id and is appended to the table; when either is missing or not a string the
  answer is the validation error and the store is unchanged.
\<close>

theorem post_notes_creates_iff_strings:
  assumes "seq (run tr init_db) \<noteq> max_rowid"
  shows "(json_get ''title'' ms = Some (JString t) \<and> json_get ''content'' ms = Some (JString c) \<longrightarrow>
            handle now (POST_notes (JObject ms)) (run tr init_db) =
              (Inr (OneNote \<lparr>note_id = seq (run tr init_db) + 1, title = t, content = c,
                             created_at = now, updated_at = now\<rparr>),
               (run tr init_db)\<lparr>rows := rows (run tr init_db) @
                   [\<lparr>note_id = seq (run tr init_db) + 1, title = t, content = c,
                     created_at = now, updated_at = now\<rparr>],
                 seq := seq (run tr init_db) + 1\<rparr>)) \<and>
         ((\<forall>s. json_get ''title'' ms \<noteq> Some (JString s)) \<or>
          (\<forall>s. json_get ''content'' ms \<noteq> Some (JString s)) \<longrightarrow>
            handle now (POST_notes (JObject ms)) (run tr init_db) =
              (Inl RequestValidationError, run tr init_db))"
proof (intro conjI impI)
  assume "json_get ''title'' ms = Some (JString t) \<and> json_get ''content'' ms = Some (JString c)"
  then show "handle now (POST_notes (JObject ms)) (run tr init_db) =
              (Inr (OneNote \<lparr>note_id = seq (run tr init_db) + 1, title = t, content = c,
                             created_at = now, updated_at = now\<rparr>),
               (run tr init_db)\<lparr>rows := rows (run tr init_db) @
                   [\<lparr>note_id = seq (run tr init_db) + 1, title = t, content = c,
                     created_at = now, updated_at = now\<rparr>],
                 seq := seq (run tr init_db) + 1\<rparr>)"
    using handle_POST_valid [OF run_init_db_ok assms] by blast
next
  assume "(\<forall>s. json_get ''title'' ms \<noteq> Some (JString s)) \<or>
          (\<forall>s. json_get ''content'' ms \<noteq> Some (JString s))"
  then have "\<And>nc. validate_NoteCreate (JObject ms) \<noteq> Inr nc"
    unfolding validate_NoteCreate_Inr by auto
  then obtain e where e: "validate_NoteCreate (JObject ms) = Inl e"
    by (cases "validate_NoteCreate (JObject ms)") auto
  with validate_NoteCreate_Inl [OF e]
  show "handle now (POST_notes (JObject ms)) (run tr init_db) =
          (Inl RequestValidationError, run tr init_db)"
    by simp
qed

text \<open>The amended C1 at the request of the counterexample.\<close>

theorem post_notes_creates_iff_strings_witness:
  "seq (run [] init_db) \<noteq> max_rowid \<and>
   json_get ''title'' [(''title'', JString ''''), (''content'', JString '''')] = Some (JString '''') \<and>
   json_get ''content'' [(''title'', JString ''''), (''content'', JString '''')] = Some (JString '''') \<and>
   handle ''2024-01-01T00:00:00'' (POST_notes (JObject [(''title'', JString ''''), (''content'', JString '''')])) (run [] init_db) =
     (Inr (OneNote \<lparr>note_id = 1, title = '''', content = '''',
                    created_at = ''2024-01-01T00:00:00'', updated_at = ''2024-01-01T00:00:00''\<rparr>),
      \<lparr>rows = [\<lparr>note_id = 1, title = '''', content = '''',
                 created_at = ''2024-01-01T00:00:00'', updated_at = ''2024-01-01T00:00:00''\<rparr>],
       seq = 1\<rparr>)"
proof -
  have h: "seq (run [] init_db) \<noteq> max_rowid"
    by (simp add: init_db_def max_rowid_def)
  have t: "json_get ''title'' [(''title'', JString ''''), (''content'', JString '''')] = Some (JString '''')"
    and c: "json_get ''content'' [(''title'', JString ''''), (''content'', JString '''')] = Some (JString '''')"
    by (simp_all add: json_get_def)
  from post_notes_creates_iff_strings [OF h, of "[(''title'', JString ''''), (''content'', JString '''')]" "''''" "''''" "''2024-01-01T00:00:00''"] t c
  have "handle ''2024-01-01T00:00:00'' (POST_notes (JObject [(''title'', JString ''''), (''content'', JString '''')])) (run [] init_db) =
     (Inr (OneNote \<lparr>note_id = seq (run [] init_db) + 1, title = '''', content = '''',
                    created_at = ''2024-01-01T00:00:00'', updated_at = ''2024-01-01T00:00:00''\<rparr>),
      (run [] init_db)\<lparr>rows := rows (run [] init_db) @ [\<lparr>note_id = seq (run [] init_db) + 1, title = '''', content = '''',
                 created_at = ''2024-01-01T00:00:00'', updated_at = ''2024-01-01T00:00:00''\<rparr>],
       seq := seq (run [] init_db) + 1\<rparr>)"
    by blast
  then show ?thesis using h t c by (simp add: init_db_def)
qed

subsection \<open>C7: a body that fails validation changes nothing\<close>

text \<open>
  C7: a POST whose body is not an object with a string title and a string content (a
  required field missing, or of a wrong type) is answered with 422, and the store after
  the request is the store before it: the body is validated before the handler runs.
\<close>

theorem post_notes_invalid_body_rejected:
  assumes "\<not> (\<exists>ms t c. body = JObject ms \<and> json_get ''title'' ms = Some (JString t) \<and>
                json_get ''content'' ms = Some (JString c))"
  shows "handle now (POST_notes body) d = (Inl RequestValidationError, d) \<and>
         status_code RequestValidationError = 422"
proof -
  from assms have "\<And>nc. validate_NoteCreate body \<noteq> Inr nc"
    unfolding validate_NoteCreate_Inr by blast
  then obtain e where e: "validate_NoteCreate body = Inl e"
    by (cases "validate_NoteCreate body") auto
  with validate_NoteCreate_Inl [OF e] show ?thesis by simp
qed

text \<open>C7 at the request of the specification: a title and no content.\<close>

theorem post_notes_invalid_body_rejected_witness:
  "\<not> (\<exists>ms t c. JObject [(''title'', JString ''T'')] = JObject ms \<and>
        json_get ''title'' ms = Some (JString t) \<and> json_get ''content'' ms = Some (JString c)) \<and>
   handle ''2024-01-01T00:00:00'' (POST_notes (JObject [(''title'', JString ''T'')])) init_db =
     (Inl RequestValidationError, init_db) \<and>
   status_code RequestValidationError = 422"
proof -
  have h: "\<not> (\<exists>ms t c. JObject [(''title'', JString ''T'')] = JObject ms \<and>
        json_get ''title'' ms = Some (JString t) \<and> json_get ''content'' ms = Some (JString c))"
    by (auto simp: json_get_def)
  from post_notes_invalid_body_rejected [OF h] h show ?thesis by blast
qed

subsection \<open>C2: a partial update keeps the field it does not name\<close>

text \<open>
  C2: for a note that exists, a PUT whose body supplies a title and no content answers
  with the note carrying the new title and the content it had, and that is the note a
  GET of the id then returns; symmetrically a PUT that supplies a content and no title
  leaves the title as it was.
\<close>

theorem put_partial_update_keeps_other_field:
  assumes "select_by_id i d = Some n" "sqlite_int i"
  shows "(json_get ''title'' ms = Some (JString t) \<and> json_get ''content'' ms = None \<longrightarrow>
            fst (handle now (PUT_note i (JObject ms)) d) =
              Inr (OneNote (n\<lparr>title := t, updated_at := now\<rparr>)) \<and>
            get_note i (snd (handle now (PUT_note i (JObject ms)) d)) =
              Inr (n\<lparr>title := t, updated_at := now\<rparr>) \<and>
            content (n\<lparr>title := t, updated_at := now\<rparr>) = content n) \<and>
         (json_get ''content'' ms = Some (JString c) \<and> json_get ''title'' ms = None \<longrightarrow>
            fst (handle now (PUT_note i (JObject ms)) d) =
              Inr (OneNote (n\<lparr>content := c, updated_at := now\<rparr>)) \<and>
            get_note i (snd (handle now (PUT_note i (JObject ms)) d)) =
              Inr (n\<lparr>content := c, updated_at := now\<rparr>) \<and>
            title (n\<lparr>content := c, updated_at := now\<rparr>) = title n)"
proof (intro conjI impI)
  assume a: "json_get ''title'' ms = Some (JString t) \<and> json_get ''content'' ms = None"
  then have v: "validate_NoteUpdate (JObject ms) = Inr \<lparr>NoteUpdate.title = Some t, content = None\<rparr>"
    by simp
  show "fst (handle now (PUT_note i (JObject ms)) d) = Inr (OneNote (n\<lparr>title := t, updated_at := now\<rparr>))"
    by (subst handle_PUT_valid [OF v assms]) simp
  show "get_note i (snd (handle now (PUT_note i (JObject ms)) d)) = Inr (n\<lparr>title := t, updated_at := now\<rparr>)"
    by (subst get_note_after_PUT [OF v assms]) simp
  show "content (n\<lparr>title := t, updated_at := now\<rparr>) = content n" by simp
next
  assume a: "json_get ''content'' ms = Some (JString c) \<and> json_get ''title'' ms = None"
  then have v: "validate_NoteUpdate (JObject ms) = Inr \<lparr>NoteUpdate.title = None, content = Some c\<rparr>"
    by simp
  show "fst (handle now (PUT_note i (JObject ms)) d) = Inr (OneNote (n\<lparr>content := c, updated_at := now\<rparr>))"
    by (subst handle_PUT_valid [OF v assms]) simp
  show "get_note i (snd (handle now (PUT_note i (JObject ms)) d)) = Inr (n\<lparr>content := c, updated_at := now\<rparr>)"
    by (subst get_note_after_PUT [OF v assms]) simp
  show "title (n\<lparr>content := c, updated_at := now\<rparr>) = title n" by simp
qed


text \<open>C2 on a table of one note, with a PUT that supplies the content only.\<close>

theorem put_partial_update_keeps_other_field_witness:
  "select_by_id 1 \<lparr>rows = [\<lparr>note_id = 1, title = ''T'', content = ''C'',
       created_at = ''2024-01-01T10:00:00'', updated_at = ''2024-01-01T10:00:00''\<rparr>], seq = 1\<rparr> =
     Some \<lparr>note_id = 1, title = ''T'', content = ''C'',
       created_at = ''2024-01-01T10:00:00'', updated_at = ''2024-01-01T10:00:00''\<rparr> \<and>
   sqlite_int 1 \<and>
   json_get ''content'' [(''content'', JString ''C2'')] = Some (JString ''C2'') \<and>
   json_get ''title'' [(''content'', JString ''C2'')] = None \<and>
   fst (handle ''2024-01-01T11:00:00'' (PUT_note 1 (JObject [(''content'', JString ''C2'')]))
        \<lparr>rows = [\<lparr>note_id = 1, title = ''T'', content = ''C'',
           created_at = ''2024-01-01T10:00:00'', updated_at = ''2024-01-01T10:00:00''\<rparr>], seq = 1\<rparr>) =
     Inr (OneNote \<lparr>note_id = 1, title = ''T'', content = ''C2'',
       created_at = ''2024-01-01T10:00:00'', updated_at = ''2024-01-01T11:00:00''\<rparr>)"
proof -
  let ?n = "\<lparr>note_id = 1, title = ''T'', content = ''C'',
       created_at = ''2024-01-01T10:00:00'', updated_at = ''2024-01-01T10:00:00''\<rparr>"
  let ?d = "\<lparr>rows = [?n], seq = 1\<rparr>"
  let ?ms = "[(''content'', JString ''C2'')]"
  have e: "select_by_id 1 ?d = Some ?n" by (simp add: select_by_id_def)
  have r: "sqlite_int 1" by (simp add: sqlite_int_def max_rowid_def)
  have c: "json_get ''content'' ?ms = Some (JString ''C2'')"
    and t: "json_get ''title'' ?ms = None"
    by (simp_all add: json_get_def)
  have "fst (handle ''2024-01-01T11:00:00'' (PUT_note 1 (JObject ?ms)) ?d) =
          Inr (OneNote (?n\<lparr>content := ''C2'', updated_at := ''2024-01-01T11:00:00''\<rparr>))"
    using put_partial_update_keeps_other_field [OF e r, of ?ms _ "''2024-01-01T11:00:00''" "''C2''"] c t
    by blast
  then show ?thesis using e r c t by simp
qed

subsection \<open>C3: every accepted PUT refreshes the update time\<close>

text \<open>
  C3: for a note that exists, every PUT whose body passes validation answers with a note
  whose \<open>updated_at\<close> is the clock reading of the request, and stores it; with a body
  that supplies no field at all the note is the old one with only \<open>updated_at\<close>
  replaced.
\<close>

theorem put_refreshes_updated_at:
  assumes "select_by_id i d = Some n" "sqlite_int i"
  shows "(validate_NoteUpdate body = Inr u \<longrightarrow>
           (\<exists>n'. fst (handle now (PUT_note i body) d) = Inr (OneNote n') \<and>
                 get_note i (snd (handle now (PUT_note i body) d)) = Inr n' \<and>
                 updated_at n' = now)) \<and>
         fst (handle now (PUT_note i (JObject [])) d) = Inr (OneNote (n\<lparr>updated_at := now\<rparr>)) \<and>
         get_note i (snd (handle now (PUT_note i (JObject [])) d)) = Inr (n\<lparr>updated_at := now\<rparr>)"
proof (intro conjI impI)
  assume v: "validate_NoteUpdate body = Inr u"
  show "\<exists>n'. fst (handle now (PUT_note i body) d) = Inr (OneNote n') \<and>
             get_note i (snd (handle now (PUT_note i body) d)) = Inr n' \<and> updated_at n' = now"
    by (subst handle_PUT_valid [OF v assms], subst get_note_after_PUT [OF v assms]) simp
next
  have v: "validate_NoteUpdate (JObject []) = Inr \<lparr>NoteUpdate.title = None, content = None\<rparr>"
    by (simp add: json_get_def)
  show "fst (handle now (PUT_note i (JObject [])) d) = Inr (OneNote (n\<lparr>updated_at := now\<rparr>))"
    by (subst handle_PUT_valid [OF v assms]) simp
  show "get_note i (snd (handle now (PUT_note i (JObject [])) d)) = Inr (n\<lparr>updated_at := now\<rparr>)"
    by (subst get_note_after_PUT [OF v assms]) simp
qed

text \<open>C3 on a table of one note, with the empty body.\<close>

theorem put_refreshes_updated_at_witness:
  "select_by_id 1 \<lparr>rows = [\<lparr>note_id = 1, title = ''T'', content = ''C'',
       created_at = ''2024-01-01T10:00:00'', updated_at = ''2024-01-01T10:00:00''\<rparr>], seq = 1\<rparr> =
     Some \<lparr>note_id = 1, title = ''T'', content = ''C'',
       created_at = ''2024-01-01T10:00:00'', updated_at = ''2024-01-01T10:00:00''\<rparr> \<and>
   sqlite_int 1 \<and>
   handle ''2024-01-01T11:00:00'' (PUT_note 1 (JObject []))
        \<lparr>rows = [\<lparr>note_id = 1, title = ''T'', content = ''C'',
           created_at = ''2024-01-01T10:00:00'', updated_at = ''2024-01-01T10:00:00''\<rparr>], seq = 1\<rparr> =
     (Inr (OneNote \<lparr>note_id = 1, title = ''T'', content = ''C'',
       created_at = ''2024-01-01T10:00:00'', updated_at = ''2024-01-01T11:00:00''\<rparr>),
      \<lparr>rows = [\<lparr>note_id = 1, title = ''T'', content = ''C'',
           created_at = ''2024-01-01T10:00:00'', updated_at = ''2024-01-01T11:00:00''\<rparr>], seq = 1\<rparr>)"
proof -
  let ?n = "\<lparr>note_id = 1, title = ''T'', content = ''C'',
       created_at = ''2024-01-01T10:00:00'', updated_at = ''2024-01-01T10:00:00''\<rparr>"
  let ?d = "\<lparr>rows = [?n], seq = 1\<rparr>"
  have e: "select_by_id 1 ?d = Some ?n" by (simp add: select_by_id_def)
  have r: "sqlite_int 1" by (simp add: sqlite_int_def max_rowid_def)
  have "fst (handle ''2024-01-01T11:00:00'' (PUT_note 1 (JObject [])) ?d) =
          Inr (OneNote (?n\<lparr>updated_at := ''2024-01-01T11:00:00''\<rparr>))"
    using put_refreshes_updated_at [OF e r, of "JObject []" _ "''2024-01-01T11:00:00''"] by blast
  moreover have "snd (handle ''2024-01-01T11:00:00'' (PUT_note 1 (JObject [])) ?d) =
      \<lparr>rows = [?n\<lparr>updated_at := ''2024-01-01T11:00:00''\<rparr>], seq = 1\<rparr>"
    by code_simp
  ultimately show ?thesis using e r by (simp add: prod_eq_iff)
qed

subsection \<open>C8: a deleted id stays not found\<close>

text \<open>
  C8: when a DELETE of an id succeeds on a store the handlers have produced, then after
  any further requests whatever (repeated GETs of the id among them, and creations) a GET
  of that id is answered 404 with detail "Note not found": the id is below the sequence
  counter, so no later creation gives it out again.
\<close>

theorem get_after_delete_not_found:
  assumes "delete_note i (run tr init_db) = (Inr m, d')"
  shows "get_note i (run tr' d') = Inl (HTTPException 404 ''Note not found'') \<and>
         status_code (HTTPException 404 ''Note not found'') = 404"
proof -
  let ?d = "run tr init_db"
  from delete_note_Inr [OF assms]
  have r: "sqlite_int i" and mem: "i \<in> set (ids ?d)"
    and d': "d' = ?d\<lparr>rows := filter (\<lambda>n. note_id n \<noteq> i) (rows ?d)\<rparr>"
    by simp_all
  have ok: "db_ok ?d" by (rule run_init_db_ok)
  have d'h: "d' = snd (handle [] (DELETE_note i) ?d)"
    using assms by simp
  have ok': "db_ok d'" unfolding d'h by (rule handle_db_ok [OF ok])
  from ok mem have le: "i \<le> seq d'"
    by (simp add: db_ok_def list_all_iff d')
  have absent: "i \<notin> set (ids d')"
    by (auto simp: d' ids_def)
  from run_absent [OF ok' le absent] have "i \<notin> set (ids (run tr' d'))" .
  with r show ?thesis by (simp add: get_note_absent)
qed

text \<open>C8 on a note created and deleted, with a GET, a creation and a second DELETE after.\<close>

theorem get_after_delete_not_found_witness:
  "delete_note 1 (run [(''2024-01-01T10:00:00'',
        POST_notes (JObject [(''title'', JString ''T''), (''content'', JString ''C'')]))] init_db) =
     (Inr ''Note deleted successfully'', \<lparr>rows = [], seq = 1\<rparr>) \<and>
   get_note 1 (run [(''2024-01-01T10:00:01'', GET_note 1),
                    (''2024-01-01T10:00:02'',
                       POST_notes (JObject [(''title'', JString ''U''), (''content'', JString ''D'')])),
                    (''2024-01-01T10:00:03'', DELETE_note 1)]
                 \<lparr>rows = [], seq = 1\<rparr>) =
     Inl (HTTPException 404 ''Note not found'')"
proof -
  have h: "delete_note 1 (run [(''2024-01-01T10:00:00'',
        POST_notes (JObject [(''title'', JString ''T''), (''content'', JString ''C'')]))] init_db) =
     (Inr ''Note deleted successfully'', \<lparr>rows = [], seq = 1\<rparr>)"
    by code_simp
  from get_after_delete_not_found [OF h] h show ?thesis by blast
qed

subsection \<open>C9: the record a successful POST returns\<close>

text \<open>
  C9: whenever a POST on a store the handlers have produced is answered with success, the
  answer is a note whose \<open>created_at\<close> equals its \<open>updated_at\<close> (both the clock reading
  of the request), whose title and content are the strings the body supplied, and which
  is in the table.
\<close>

theorem post_notes_created_record:
  assumes "handle now (POST_notes body) (run tr init_db) = (Inr r, d')"
  shows "\<exists>n ms. r = OneNote n \<and> body = JObject ms \<and>
           json_get ''title'' ms = Some (JString (title n)) \<and>
           json_get ''content'' ms = Some (JString (content n)) \<and>
           created_at n = updated_at n \<and> updated_at n = now \<and>
           n \<in> set (rows d')"
proof -
  let ?d = "run tr init_db"
  have ok: "db_ok ?d" by (rule run_init_db_ok)
  from assms obtain nc where nc: "validate_NoteCreate body = Inr nc"
    by (cases "validate_NoteCreate body") auto
  then obtain ms where ms: "body = JObject ms"
    "json_get ''title'' ms = Some (JString (NoteCreate.title nc))"
    "json_get ''content'' ms = Some (JString (NoteCreate.content nc))"
    unfolding validate_NoteCreate_Inr by blast
  have nf: "seq ?d \<noteq> max_rowid"
  proof
    assume "seq ?d = max_rowid"
    then show False using assms nc by (simp add: create_note_full)
  qed
  from assms show ?thesis
    unfolding ms(1) handle_POST_valid [OF ok nf ms(2,3)]
    using ms by auto
qed

subsection \<open>C10: null in a PUT is an omitted field\<close>

text \<open>
  C10: a PUT whose body gives \<^verbatim>\<open>null\<close> for title is answered, and leaves the store,
  exactly as the same body without the title member, and likewise for content; when such
  a PUT succeeds the note keeps the value it had for that field. A PUT that gives the
  empty string for title does replace the title by the empty string. The stored title
  and content are strings by the type of \<open>Note\<close>: what \<open>update_note\<close> writes is either
  the supplied string or the existing value.
\<close>

theorem put_null_same_as_omitted:
  "(json_get ''title'' ms = Some JNull \<longrightarrow>
      handle now (PUT_note i (JObject ms)) d =
      handle now (PUT_note i (JObject (filter (\<lambda>m. fst m \<noteq> ''title'') ms))) d) \<and>
   (json_get ''content'' ms = Some JNull \<longrightarrow>
      handle now (PUT_note i (JObject ms)) d =
      handle now (PUT_note i (JObject (filter (\<lambda>m. fst m \<noteq> ''content'') ms))) d) \<and>
   (select_by_id i d = Some n \<and> json_get ''title'' ms = Some JNull \<and>
    fst (handle now (PUT_note i (JObject ms)) d) = Inr (OneNote n') \<longrightarrow> title n' = title n) \<and>
   (select_by_id i d = Some n \<and> json_get ''content'' ms = Some JNull \<and>
    fst (handle now (PUT_note i (JObject ms)) d) = Inr (OneNote n') \<longrightarrow> content n' = content n) \<and>
   (select_by_id i d = Some n \<and> sqlite_int i \<and>
    json_get ''title'' ms = Some (JString '''') \<and> json_get ''content'' ms = None \<longrightarrow>
      fst (handle now (PUT_note i (JObject ms)) d) =
        Inr (OneNote (n\<lparr>title := '''', updated_at := now\<rparr>)) \<and>
      get_note i (snd (handle now (PUT_note i (JObject ms)) d)) =
        Inr (n\<lparr>title := '''', updated_at := now\<rparr>))"
proof (intro conjI impI)
  assume a: "json_get ''title'' ms = Some JNull"
  have "json_get ''title'' (filter (\<lambda>m. fst m \<noteq> ''title'') ms) = None"
    "json_get ''content'' (filter (\<lambda>m. fst m \<noteq> ''title'') ms) = json_get ''content'' ms"
    by (simp_all only: json_get_filter) simp_all
  with a show "handle now (PUT_note i (JObject ms)) d =
      handle now (PUT_note i (JObject (filter (\<lambda>m. fst m \<noteq> ''title'') ms))) d"
    by (simp cong: sum.case_cong)
next
  assume a: "json_get ''content'' ms = Some JNull"
  have "json_get ''content'' (filter (\<lambda>m. fst m \<noteq> ''content'') ms) = None"
    "json_get ''title'' (filter (\<lambda>m. fst m \<noteq> ''content'') ms) = json_get ''title'' ms"
    by (simp_all only: json_get_filter) simp_all
  with a show "handle now (PUT_note i (JObject ms)) d =
      handle now (PUT_note i (JObject (filter (\<lambda>m. fst m \<noteq> ''content'') ms))) d"
    by (simp cong: sum.case_cong)
next
  assume a: "select_by_id i d = Some n \<and> json_get ''title'' ms = Some JNull \<and>
    fst (handle now (PUT_note i (JObject ms)) d) = Inr (OneNote n')"
  then obtain u where u: "validate_NoteUpdate (JObject ms) = Inr u"
    by (cases "validate_NoteUpdate (JObject ms)") auto
  with a have t: "NoteUpdate.title u = None" by (auto split: sum.splits)
  from a u have r: "sqlite_int i"
    by (auto simp: update_note_def case_prod_beta split: if_splits)
  from a have e: "select_by_id i d = Some n"
    and f: "fst (handle now (PUT_note i (JObject ms)) d) = Inr (OneNote n')" by blast+
  from f [unfolded handle_PUT_valid [OF u e r]] t show "title n' = title n" by auto
next
  assume a: "select_by_id i d = Some n \<and> json_get ''content'' ms = Some JNull \<and>
    fst (handle now (PUT_note i (JObject ms)) d) = Inr (OneNote n')"
  then obtain u where u: "validate_NoteUpdate (JObject ms) = Inr u"
    by (cases "validate_NoteUpdate (JObject ms)") auto
  with a have t: "NoteUpdate.content u = None" by (auto split: sum.splits)
  from a u have r: "sqlite_int i"
    by (auto simp: update_note_def case_prod_beta split: if_splits)
  from a have e: "select_by_id i d = Some n"
    and f: "fst (handle now (PUT_note i (JObject ms)) d) = Inr (OneNote n')" by blast+
  from f [unfolded handle_PUT_valid [OF u e r]] t show "content n' = content n" by auto
next
  assume a: "select_by_id i d = Some n \<and> sqlite_int i \<and>
    json_get ''title'' ms = Some (JString '''') \<and> json_get ''content'' ms = None"
  then have v: "validate_NoteUpdate (JObject ms) = Inr \<lparr>NoteUpdate.title = Some '''', content = None\<rparr>"
    by simp
  from a have e: "select_by_id i d = Some n" and r: "sqlite_int i" by simp_all
  show "fst (handle now (PUT_note i (JObject ms)) d) =
        Inr (OneNote (n\<lparr>title := '''', updated_at := now\<rparr>))"
    by (subst handle_PUT_valid [OF v e r]) simp
  show "get_note i (snd (handle now (PUT_note i (JObject ms)) d)) =
        Inr (n\<lparr>title := '''', updated_at := now\<rparr>)"
    by (subst get_note_after_PUT [OF v e r]) simp
qed


text \<open>C9 at the first request of the specification's scenario.\<close>

theorem post_notes_created_record_witness:
  "handle ''2024-01-01T10:00:00''
      (POST_notes (JObject [(''title'', JString ''T''), (''content'', JString ''C'')]))
      (run [] init_db) =
     (Inr (OneNote \<lparr>note_id = 1, title = ''T'', content = ''C'',
             created_at = ''2024-01-01T10:00:00'', updated_at = ''2024-01-01T10:00:00''\<rparr>),
      \<lparr>rows = [\<lparr>note_id = 1, title = ''T'', content = ''C'',
             created_at = ''2024-01-01T10:00:00'', updated_at = ''2024-01-01T10:00:00''\<rparr>],
       seq = 1\<rparr>) \<and>
   (\<exists>n ms. OneNote \<lparr>note_id = 1, title = ''T'', content = ''C'',
             created_at = ''2024-01-01T10:00:00'', updated_at = ''2024-01-01T10:00:00''\<rparr> = OneNote n \<and>
        JObject [(''title'', JString ''T''), (''content'', JString ''C'')] = JObject ms \<and>
        json_get ''title'' ms = Some (JString (title n)) \<and>
        json_get ''content'' ms = Some (JString (content n)) \<and>
        created_at n = updated_at n \<and> updated_at n = ''2024-01-01T10:00:00'' \<and>
        n \<in> set (rows \<lparr>rows = [\<lparr>note_id = 1, title = ''T'', content = ''C'',
             created_at = ''2024-01-01T10:00:00'', updated_at = ''2024-01-01T10:00:00''\<rparr>],
           seq = 1\<rparr>))"
proof -
  have h: "handle ''2024-01-01T10:00:00''
      (POST_notes (JObject [(''title'', JString ''T''), (''content'', JString ''C'')]))
      (run [] init_db) =
     (Inr (OneNote \<lparr>note_id = 1, title = ''T'', content = ''C'',
             created_at = ''2024-01-01T10:00:00'', updated_at = ''2024-01-01T10:00:00''\<rparr>),
      \<lparr>rows = [\<lparr>note_id = 1, title = ''T'', content = ''C'',
             created_at = ''2024-01-01T10:00:00'', updated_at = ''2024-01-01T10:00:00''\<rparr>],
       seq = 1\<rparr>)"
    by code_simp
  from post_notes_created_record [OF h] h show ?thesis by (rule conjI [rotated])
qed

text \<open>C10 on a table of one note: a null title beside a new content.\<close>

theorem put_null_same_as_omitted_witness:
  "json_get ''title'' [(''title'', JNull), (''content'', JString ''C2'')] = Some JNull \<and>
   handle ''2024-01-01T11:00:00''
     (PUT_note 1 (JObject [(''title'', JNull), (''content'', JString ''C2'')]))
     \<lparr>rows = [\<lparr>note_id = 1, title = ''T'', content = ''C'',
        created_at = ''2024-01-01T10:00:00'', updated_at = ''2024-01-01T10:00:00''\<rparr>], seq = 1\<rparr> =
   handle ''2024-01-01T11:00:00''
     (PUT_note 1 (JObject [(''content'', JString ''C2'')]))
     \<lparr>rows = [\<lparr>note_id = 1, title = ''T'', content = ''C'',
        created_at = ''2024-01-01T10:00:00'', updated_at = ''2024-01-01T10:00:00''\<rparr>], seq = 1\<rparr>"
proof -
  let ?ms = "[(''title'', JNull), (''content'', JString ''C2'')]"
  have t: "json_get ''title'' ?ms = Some JNull" by (simp add: json_get_def)
  have f: "filter (\<lambda>m. fst m \<noteq> ''title'') ?ms = [(''content'', JString ''C2'')]" by simp
  from put_null_same_as_omitted [of ?ms "''2024-01-01T11:00:00''" 1] t
  show ?thesis unfolding f by blast
qed

subsection \<open>C4: a note is never updated before it was created\<close>

text \<open>
  C4: in every store that a history of requests produces from the empty one, every note
  has \<open>updated_at \<ge> created_at\<close>, provided the clock readings along the history never
  decrease. The history is arbitrary (any of list, get, create, update and delete, in
  any order), and every prefix of a history is a history, so the invariant holds after
  each operation. The order on timestamps is the order of the stored strings, which for
  the output of \<^verbatim>\<open>isoformat()\<close> is the order of the times.
\<close>

theorem updated_at_ge_created_at:
  assumes "sorted (map fst tr)"
  shows "\<forall>n \<in> set (rows (run tr init_db)). created_at n \<le> updated_at n"
  by (rule run_times [OF assms]) (simp_all add: init_db_def)


text \<open>C4 on a creation and two updates, the first at the very reading of the creation.\<close>

theorem updated_at_ge_created_at_witness:
  "sorted (map fst
     [(''2024-01-01T10:00:00'', POST_notes (JObject [(''title'', JString ''T''), (''content'', JString ''C'')])),
      (''2024-01-01T10:00:00'', PUT_note 1 (JObject [(''content'', JString ''C2'')])),
      (''2024-01-01T10:00:07'', PUT_note 1 (JObject []))]) \<and>
   list_all (\<lambda>n. created_at n \<le> updated_at n) (rows (run
     [(''2024-01-01T10:00:00'', POST_notes (JObject [(''title'', JString ''T''), (''content'', JString ''C'')])),
      (''2024-01-01T10:00:00'', PUT_note 1 (JObject [(''content'', JString ''C2'')])),
      (''2024-01-01T10:00:07'', PUT_note 1 (JObject []))] init_db))"
proof -
  have h: "sorted (map fst
     [(''2024-01-01T10:00:00'', POST_notes (JObject [(''title'', JString ''T''), (''content'', JString ''C'')])),
      (''2024-01-01T10:00:00'', PUT_note 1 (JObject [(''content'', JString ''C2'')])),
      (''2024-01-01T10:00:07'', PUT_note 1 (JObject []))])"
    by code_simp
  from updated_at_ge_created_at [OF h] h show ?thesis by (simp only: list_all_iff)
qed

subsection \<open>C5: ids are unique and only grow\<close>

text \<open>
  C5: in every history from the empty store, the ids that creations return are strictly
  increasing in the order of the requests, so each is greater than every id given out
  before it and none is given out twice, whether or not its note was deleted in
  between; the ids in the table are pairwise distinct, and each of them was given out by
  a creation of the history.
\<close>

theorem ids_unique_and_increasing:
  "sorted_wrt (<) (created_ids (responses tr init_db)) \<and>
   distinct (ids (run tr init_db)) \<and>
   set (ids (run tr init_db)) \<subseteq> set (created_ids (responses tr init_db))"
proof -
  from created_ids_increasing [OF db_ok_init, of tr]
  have "sorted_wrt (<) (created_ids (responses tr init_db))"
    and "set (ids (run tr init_db)) \<subseteq> set (created_ids (responses tr init_db))"
    by (simp_all add: ids_def init_db_def)
  moreover have "distinct (ids (run tr init_db))"
    using run_init_db_ok [of tr] by (simp add: db_ok_def)
  ultimately show ?thesis by blast
qed


text \<open>C5 on a history that deletes note 2 before the third creation: that one gets 3.\<close>

theorem ids_unique_and_increasing_witness:
  "created_ids (responses
     [(''2024-01-01T10:00:00'', POST_notes (JObject [(''title'', JString ''A''), (''content'', JString ''a'')])),
      (''2024-01-01T10:00:01'', POST_notes (JObject [(''title'', JString ''B''), (''content'', JString ''b'')])),
      (''2024-01-01T10:00:02'', DELETE_note 2),
      (''2024-01-01T10:00:03'', POST_notes (JObject [(''title'', JString ''C''), (''content'', JString ''c'')]))]
     init_db) = [1, 2, 3] \<and>
   ids (run
     [(''2024-01-01T10:00:00'', POST_notes (JObject [(''title'', JString ''A''), (''content'', JString ''a'')])),
      (''2024-01-01T10:00:01'', POST_notes (JObject [(''title'', JString ''B''), (''content'', JString ''b'')])),
      (''2024-01-01T10:00:02'', DELETE_note 2),
      (''2024-01-01T10:00:03'', POST_notes (JObject [(''title'', JString ''C''), (''content'', JString ''c'')]))]
     init_db) = [1, 3] \<and>
   sorted_wrt (<) (created_ids (responses
     [(''2024-01-01T10:00:00'', POST_notes (JObject [(''title'', JString ''A''), (''content'', JString ''a'')])),
      (''2024-01-01T10:00:01'', POST_notes (JObject [(''title'', JString ''B''), (''content'', JString ''b'')])),
      (''2024-01-01T10:00:02'', DELETE_note 2),
      (''2024-01-01T10:00:03'', POST_notes (JObject [(''title'', JString ''C''), (''content'', JString ''c'')]))]
     init_db))"
proof -
  let ?tr = "[(''2024-01-01T10:00:00'', POST_notes (JObject [(''title'', JString ''A''), (''content'', JString ''a'')])),
      (''2024-01-01T10:00:01'', POST_notes (JObject [(''title'', JString ''B''), (''content'', JString ''b'')])),
      (''2024-01-01T10:00:02'', DELETE_note 2),
      (''2024-01-01T10:00:03'', POST_notes (JObject [(''title'', JString ''C''), (''content'', JString ''c'')]))]"
  have c: "created_ids (responses ?tr init_db) = [1, 2, 3]" by code_simp
  have i: "ids (run ?tr init_db) = [1, 3]" by code_simp
  from ids_unique_and_increasing [of ?tr]
  have "sorted_wrt (<) (created_ids (responses ?tr init_db))" by blast
  with c i show ?thesis by blast
qed

subsection \<open>C6: the order of the listing\<close>

text \<open>
  C6 as stated: after creating A, B, C in that order and then updating A, the list order
  is [A, C, B]. The order is that of the stored clock readings, and the code reads the
  wall clock (\<^verbatim>\<open>datetime.now()\<close>, local time). When the clock is set back between
  the creation of B and that of C, as at the end of daylight saving time, B is the most
  recent by its timestamp and the listing is [B, A, C]. When B and C are created at the
  same reading, they stay in row order and the listing is [A, B, C].
\<close>

theorem get_notes_abc_order_counterexample:
  "map note_id (get_notes (run
     [(''2024-11-03T01:59:58'', POST_notes (JObject [(''title'', JString ''A''), (''content'', JString ''a'')])),
      (''2024-11-03T01:59:59'', POST_notes (JObject [(''title'', JString ''B''), (''content'', JString ''b'')])),
      (''2024-11-03T01:00:00'', POST_notes (JObject [(''title'', JString ''C''), (''content'', JString ''c'')])),
      (''2024-11-03T01:00:01'', PUT_note 1 (JObject [(''content'', JString ''a2'')]))]
     init_db)) = [2, 1, 3] \<and>
   map note_id (get_notes (run
     [(''2024-11-03T01:00:00'', POST_notes (JObject [(''title'', JString ''A''), (''content'', JString ''a'')])),
      (''2024-11-03T01:00:01'', POST_notes (JObject [(''title'', JString ''B''), (''content'', JString ''b'')])),
      (''2024-11-03T01:00:01'', POST_notes (JObject [(''title'', JString ''C''), (''content'', JString ''c'')])),
      (''2024-11-03T01:00:02'', PUT_note 1 (JObject [(''content'', JString ''a2'')]))]
     init_db)) = [1, 2, 3]"
  by code_simp

text \<open>
  C6 as amended: the listing holds exactly the stored notes, in an order in which
  \<open>updated_at\<close> never increases; and after creating A, B, C in that order from the empty
  store and then updating A with a body that passes validation, the listing is
  [A, C, B], provided the reading at the creation of C is later than at the creation of
  B and the reading at the update of A is later than at the creation of C.
\<close>

theorem get_notes_newest_first:
  "mset (get_notes d) = mset (rows d) \<and>
   sorted_wrt (\<lambda>a b. updated_at b \<le> updated_at a) (get_notes d) \<and>
   (t2 < t3 \<and> t3 < t4 \<and> validate_NoteUpdate body = Inr u \<longrightarrow>
      get_notes (run
        [(t1, POST_notes (JObject [(''title'', JString ta), (''content'', JString ca)])),
         (t2, POST_notes (JObject [(''title'', JString tb), (''content'', JString cb)])),
         (t3, POST_notes (JObject [(''title'', JString tc), (''content'', JString cc)])),
         (t4, PUT_note 1 body)] init_db) =
      [\<lparr>note_id = 1,
         title = (case NoteUpdate.title u of Some s \<Rightarrow> s | None \<Rightarrow> ta),
         content = (case NoteUpdate.content u of Some s \<Rightarrow> s | None \<Rightarrow> ca),
         created_at = t1, updated_at = t4\<rparr>,
       \<lparr>note_id = 3, title = tc, content = cc, created_at = t3, updated_at = t3\<rparr>,
       \<lparr>note_id = 2, title = tb, content = cb, created_at = t2, updated_at = t2\<rparr>])"
proof (intro conjI impI)
  show "mset (get_notes d) = mset (rows d)"
    by (simp add: get_notes_def order_by_updated_at_desc_mset)
  show "sorted_wrt (\<lambda>a b. updated_at b \<le> updated_at a) (get_notes d)"
    by (simp add: get_notes_def order_by_updated_at_desc_sorted)
next
  assume a: "t2 < t3 \<and> t3 < t4 \<and> validate_NoteUpdate body = Inr u"
  let ?A = "\<lparr>note_id = 1, title = ta, content = ca, created_at = t1, updated_at = t1\<rparr>"
  let ?B = "\<lparr>note_id = 2, title = tb, content = cb, created_at = t2, updated_at = t2\<rparr>"
  let ?C = "\<lparr>note_id = 3, title = tc, content = cc, created_at = t3, updated_at = t3\<rparr>"
  let ?d3 = "\<lparr>rows = [?A, ?B, ?C], seq = 3\<rparr>"
  let ?cs = "[(t1, POST_notes (JObject [(''title'', JString ta), (''content'', JString ca)])),
         (t2, POST_notes (JObject [(''title'', JString tb), (''content'', JString cb)])),
         (t3, POST_notes (JObject [(''title'', JString tc), (''content'', JString cc)]))]"
  from a have v: "validate_NoteUpdate body = Inr u" by blast
  from a have le: "t2 \<le> t4" "\<not> t3 \<le> t2" "t3 \<le> t4" by auto
  have e: "select_by_id 1 ?d3 = Some ?A" by (simp add: select_by_id_def)
  have r: "sqlite_int 1" by (simp add: sqlite_int_def max_rowid_def)
  have "run (?cs @ [(t4, PUT_note 1 body)]) init_db = snd (handle t4 (PUT_note 1 body) ?d3)"
    unfolding run_append three_creates by simp
  also have "\<dots> = \<lparr>rows =
      [\<lparr>note_id = 1,
         title = (case NoteUpdate.title u of Some s \<Rightarrow> s | None \<Rightarrow> ta),
         content = (case NoteUpdate.content u of Some s \<Rightarrow> s | None \<Rightarrow> ca),
         created_at = t1, updated_at = t4\<rparr>, ?B, ?C], seq = 3\<rparr>"
    by (subst handle_PUT_valid [OF v e r]) (simp split: option.splits)
  finally show "get_notes (run
        [(t1, POST_notes (JObject [(''title'', JString ta), (''content'', JString ca)])),
         (t2, POST_notes (JObject [(''title'', JString tb), (''content'', JString cb)])),
         (t3, POST_notes (JObject [(''title'', JString tc), (''content'', JString cc)])),
         (t4, PUT_note 1 body)] init_db) =
      [\<lparr>note_id = 1,
         title = (case NoteUpdate.title u of Some s \<Rightarrow> s | None \<Rightarrow> ta),
         content = (case NoteUpdate.content u of Some s \<Rightarrow> s | None \<Rightarrow> ca),
         created_at = t1, updated_at = t4\<rparr>, ?C, ?B]"
    using le by (simp add: get_notes_def order_by_updated_at_desc_def)
qed


text \<open>The amended C6 with one second between the requests.\<close>

theorem get_notes_newest_first_witness:
  "''2024-01-01T10:00:01'' < ''2024-01-01T10:00:02'' \<and>
   ''2024-01-01T10:00:02'' < ''2024-01-01T10:00:03'' \<and>
   validate_NoteUpdate (JObject [(''content'', JString ''a2'')]) =
     Inr \<lparr>NoteUpdate.title = None, content = Some ''a2''\<rparr> \<and>
   get_notes (run
     [(''2024-01-01T10:00:00'', POST_notes (JObject [(''title'', JString ''A''), (''content'', JString ''a'')])),
      (''2024-01-01T10:00:01'', POST_notes (JObject [(''title'', JString ''B''), (''content'', JString ''b'')])),
      (''2024-01-01T10:00:02'', POST_notes (JObject [(''title'', JString ''C''), (''content'', JString ''c'')])),
      (''2024-01-01T10:00:03'', PUT_note 1 (JObject [(''content'', JString ''a2'')]))]
     init_db) =
   [\<lparr>note_id = 1, title = ''A'', content = ''a2'',
      created_at = ''2024-01-01T10:00:00'', updated_at = ''2024-01-01T10:00:03''\<rparr>,
    \<lparr>note_id = 3, title = ''C'', content = ''c'',
      created_at = ''2024-01-01T10:00:02'', updated_at = ''2024-01-01T10:00:02''\<rparr>,
    \<lparr>note_id = 2, title = ''B'', content = ''b'',
      created_at = ''2024-01-01T10:00:01'', updated_at = ''2024-01-01T10:00:01''\<rparr>]"
proof -
  have h1: "''2024-01-01T10:00:01'' < ''2024-01-01T10:00:02''"
    and h2: "''2024-01-01T10:00:02'' < ''2024-01-01T10:00:03''"
    by code_simp+
  have v: "validate_NoteUpdate (JObject [(''content'', JString ''a2'')]) =
     Inr \<lparr>NoteUpdate.title = None, content = Some ''a2''\<rparr>"
    by (simp add: json_get_def)
  from get_notes_newest_first [of init_db "''2024-01-01T10:00:01''" "''2024-01-01T10:00:02''"
      "''2024-01-01T10:00:03''" "JObject [(''content'', JString ''a2'')]"
      "\<lparr>NoteUpdate.title = None, content = Some ''a2''\<rparr>"
      "''2024-01-01T10:00:00''" "''A''" "''a''" "''B''" "''b''" "''C''" "''c''"] h1 h2 v
  have "get_notes (run
     [(''2024-01-01T10:00:00'', POST_notes (JObject [(''title'', JString ''A''), (''content'', JString ''a'')])),
      (''2024-01-01T10:00:01'', POST_notes (JObject [(''title'', JString ''B''), (''content'', JString ''b'')])),
      (''2024-01-01T10:00:02'', POST_notes (JObject [(''title'', JString ''C''), (''content'', JString ''c'')])),
      (''2024-01-01T10:00:03'', PUT_note 1 (JObject [(''content'', JString ''a2'')]))]
     init_db) =
   [\<lparr>note_id = 1,
      title = (case NoteUpdate.title \<lparr>NoteUpdate.title = None, content = Some ''a2''\<rparr> of
                 Some s \<Rightarrow> s | None \<Rightarrow> ''A''),
      content = (case NoteUpdate.content \<lparr>NoteUpdate.title = None, content = Some ''a2''\<rparr> of
                 Some s \<Rightarrow> s | None \<Rightarrow> ''a''),
      created_at = ''2024-01-01T10:00:00'', updated_at = ''2024-01-01T10:00:03''\<rparr>,
    \<lparr>note_id = 3, title = ''C'', content = ''c'',
      created_at = ''2024-01-01T10:00:02'', updated_at = ''2024-01-01T10:00:02''\<rparr>,
    \<lparr>note_id = 2, title = ''B'', content = ''b'',
      created_at = ''2024-01-01T10:00:01'', updated_at = ''2024-01-01T10:00:01''\<rparr>]"
    by blast
  then show ?thesis using h1 h2 v by simp
qed

end
